theory Spec2Isabelle
  imports
    Main
    "HOL-Library.Word"
    "HOL-Library.Char_ord"
    "HOL-Library.List_Lexorder"
begin

unbundle bit_operations_syntax

section \<open>Descriptors, parameters and decoded values\<close>

text \<open>
  The file \<^verbatim>\<open>operation_adapter.go\<close> adapts one swagger operation to one gRPC method.
  It works on protobuf descriptors (package \<^verbatim>\<open>desc\<close>), on dynamic messages (package
  \<^verbatim>\<open>dynamic\<close>), on swagger parameters (\<^verbatim>\<open>spec.Parameter\<close>) and on the request object
  of go-openapi (\<^verbatim>\<open>runtime.ClientRequest\<close>). Those packages are libraries; what the adapter
  observes of them is modelled below, each item marked as such.
\<close>

datatype FieldDescriptorProto_Type =
    TYPE_DOUBLE | TYPE_FLOAT | TYPE_INT64 | TYPE_UINT64 | TYPE_INT32
  | TYPE_FIXED64 | TYPE_FIXED32 | TYPE_BOOL | TYPE_STRING | TYPE_GROUP
  | TYPE_MESSAGE | TYPE_BYTES | TYPE_UINT32 | TYPE_ENUM | TYPE_SFIXED32
  | TYPE_SFIXED64 | TYPE_SINT32 | TYPE_SINT64
  | TYPE_UNRECOGNIZED

datatype FieldDescriptorProto_Label = LABEL_OPTIONAL | LABEL_REQUIRED | LABEL_REPEATED

text \<open>
  A field descriptor, as far as the adapter reads it: the name, the label, the declared
  type, and whether the field's message type is a map entry.
\<close>

record FieldDescriptor =
  fd_Name :: string
  fd_Label :: FieldDescriptorProto_Label
  fd_Type :: FieldDescriptorProto_Type
  fd_MapEntry :: bool

definition GetType :: "FieldDescriptor \<Rightarrow> FieldDescriptorProto_Type" where
  "GetType fd = fd_Type fd"

definition IsRepeated :: "FieldDescriptor \<Rightarrow> bool" where
  "IsRepeated fd = (fd_Label fd = LABEL_REPEATED)"

text \<open>
  \<^verbatim>\<open>IsMap\<close> of protoreflect: a map field carries the repeated label and its type is a
  message that is a map entry (``Maps will report as repeated'', as \<^verbatim>\<open>convertValues\<close> says).
\<close>

definition IsMap :: "FieldDescriptor \<Rightarrow> bool" where
  "IsMap fd = (fd_Label fd = LABEL_REPEATED \<and> fd_Type fd = TYPE_MESSAGE \<and> fd_MapEntry fd)"

text \<open>A message descriptor owns its fields in order; \<^verbatim>\<open>FindFieldByName\<close> returns nil when absent.\<close>

type_synonym MessageDescriptor = "FieldDescriptor list"

definition FindFieldByName :: "MessageDescriptor \<Rightarrow> string \<Rightarrow> FieldDescriptor option" where
  "FindFieldByName md n = find (\<lambda>fd. fd_Name fd = n) md"

record MethodDescriptor =
  md_InputType :: MessageDescriptor
  md_OutputType :: MessageDescriptor

text \<open>
  A value of Go's \<^verbatim>\<open>interface{}\<close> as a dynamic message hands it out. Integers keep their
  width; a float is its IEEE-754 bit pattern. A \<^verbatim>\<open>map[interface{}]interface{}\<close> is the list
  of its entries in the order one \<^verbatim>\<open>range\<close> loop visits them (any order is possible, keys are
  distinct). A \<^verbatim>\<open>map[string]interface{}\<close> is the list of its entries in ascending key order.
\<close>

datatype go_value =
    VNil
  | VBool bool
  | VInt32 "32 word"
  | VInt64 "64 word"
  | VUint32 "32 word"
  | VUint64 "64 word"
  | VFloat32 "32 word"
  | VFloat64 "64 word"
  | VString string
  | VBytes "8 word list"
  | VSlice "go_value list"
  | VMap "(go_value \<times> go_value) list"
  | VStringMap "(string \<times> go_value) list"
  | VMessage "(string \<times> go_value) list"

text \<open>The fields of \<^verbatim>\<open>spec.Parameter\<close> that the adapter reads.\<close>

record Parameter =
  param_Name :: string
  param_In :: string
  param_Enum :: "go_value list"

text \<open>
  A dynamic message is observed through \<^verbatim>\<open>GetField\<close> only, which yields the decoded value
  of a field (the default of the field when it is unset).
\<close>

type_synonym Message = "FieldDescriptor \<Rightarrow> go_value"

definition GetField :: "Message \<Rightarrow> FieldDescriptor \<Rightarrow> go_value" where
  "GetField message fd = message fd"

subsection \<open>Errors, panics and log lines\<close>

text \<open>
  Every \<^verbatim>\<open>fmt.Errorf\<close> of the file is a constructor that keeps the arguments of the format;
  \<open>ErrExternal\<close> is an error handed back by a collaborator (stream, transport, JSON).
\<close>

datatype error =
    ErrCouldNotFindProtoField string
  | ErrGroup
  | ErrBytesNotImplemented
  | ErrUnhandledFieldType FieldDescriptorProto_Type
  | ErrFormData
  | ErrCookie
  | ErrUnknownParameterLocation string string
  | ErrCouldNotCast
  | ErrExternal string

text \<open>A failed type assertion and an index out of range abort the goroutine.\<close>

datatype panic = PanicTypeAssertion | PanicIndexOutOfRange

text \<open>Every \<^verbatim>\<open>log.Print\<close> of the file is a constructor that keeps the arguments.\<close>

datatype log_entry =
    LogNonMapValue
  | LogNonStringKey
  | LogErrorJSONSerializing error
  | LogErrorJSONSerializingIgnoring error
  | LogEnumOutOfBounds "32 word" string
  | LogMultipleValues string
  | LogErrorDeserializingRequest error
  | LogNonNilError error

subsection \<open>Library functions\<close>

text \<open>
  \<^verbatim>\<open>fmt.Sprintf\<close> and \<^verbatim>\<open>json.Marshal\<close> belong to Go's standard library. They are written
  out for booleans, integers and plain strings, where their output is fixed by decimal
  notation; every other value is left to the two functions of \<open>golib\<close>, which stand for
  the library on the values not written out.
\<close>

record golib =
  fmt_other :: "go_value \<Rightarrow> string"
  json_other :: "go_value \<Rightarrow> error + string"

function FormatUint :: "nat \<Rightarrow> string" where
  "FormatUint n =
     (if n < 10 then [''0123456789'' ! n]
      else FormatUint (n div 10) @ [''0123456789'' ! (n mod 10)])"
  by pat_completeness auto
termination
  by (relation "measure id") auto

declare FormatUint.simps [simp del]

definition FormatInt :: "int \<Rightarrow> string" where
  "FormatInt i = (if i < 0 then CHR ''-'' # FormatUint (nat (- i)) else FormatUint (nat i))"

definition FormatBool :: "bool \<Rightarrow> string" where
  "FormatBool b = (if b then ''true'' else ''false'')"

text \<open>\<^verbatim>\<open>fmt.Sprintf("%v", value)\<close>.\<close>

definition Sprintf_v :: "golib \<Rightarrow> go_value \<Rightarrow> string" where
  "Sprintf_v lib v =
     (case v of
        VBool b \<Rightarrow> FormatBool b
      | VInt32 w \<Rightarrow> FormatInt (sint w)
      | VInt64 w \<Rightarrow> FormatInt (sint w)
      | VUint32 w \<Rightarrow> FormatInt (uint w)
      | VUint64 w \<Rightarrow> FormatInt (uint w)
      | VString s \<Rightarrow> s
      | _ \<Rightarrow> fmt_other lib v)"

text \<open>
  A string that \<^verbatim>\<open>encoding/json\<close> writes between quotes unchanged: printable ASCII
  without the quote, the backslash and the three characters it escapes for HTML.
\<close>

definition json_plain :: "string \<Rightarrow> bool" where
  "json_plain s =
     list_all (\<lambda>c. 32 \<le> (of_char c :: nat) \<and> (of_char c :: nat) \<le> 126 \<and>
                    c \<notin> set [CHR 0x22, CHR 0x5C, CHR ''<'', CHR ''>'', CHR ''&'']) s"

definition json_string :: "golib \<Rightarrow> string \<Rightarrow> error + string" where
  "json_string lib s =
     (if json_plain s then Inr ([CHR 0x22] @ s @ [CHR 0x22]) else json_other lib (VString s))"

text \<open>
  A float whose exponent bits are all ones is an infinity or a NaN. JSON has neither:
  \<^verbatim>\<open>json.Marshal\<close> returns an \<^verbatim>\<open>UnsupportedValueError\<close> that names the value.
\<close>

definition nonfinite32 :: "32 word \<Rightarrow> bool" where
  "nonfinite32 w = (drop_bit 23 w AND 0xFF = 0xFF)"

definition nonfinite64 :: "64 word \<Rightarrow> bool" where
  "nonfinite64 w = (drop_bit 52 w AND 0x7FF = 0x7FF)"

definition special32 :: "32 word \<Rightarrow> string" where
  "special32 w =
     (if w AND 0x7FFFFF = 0 then (if bit w 31 then ''-Inf'' else ''+Inf'') else ''NaN'')"

definition special64 :: "64 word \<Rightarrow> string" where
  "special64 w =
     (if w AND 0xFFFFFFFFFFFFF = 0 then (if bit w 63 then ''-Inf'' else ''+Inf'') else ''NaN'')"

definition json_scalar :: "golib \<Rightarrow> go_value \<Rightarrow> error + string" where
  "json_scalar lib v =
     (case v of
        VBool b \<Rightarrow> Inr (FormatBool b)
      | VInt32 w \<Rightarrow> Inr (FormatInt (sint w))
      | VInt64 w \<Rightarrow> Inr (FormatInt (sint w))
      | VUint32 w \<Rightarrow> Inr (FormatInt (uint w))
      | VUint64 w \<Rightarrow> Inr (FormatInt (uint w))
      | VFloat32 w \<Rightarrow>
          (if nonfinite32 w then Inl (ErrExternal (''json: unsupported value: '' @ special32 w))
           else json_other lib v)
      | VFloat64 w \<Rightarrow>
          (if nonfinite64 w then Inl (ErrExternal (''json: unsupported value: '' @ special64 w))
           else json_other lib v)
      | VString s \<Rightarrow> json_string lib s
      | _ \<Rightarrow> json_other lib v)"

text \<open>The members of an object, in the order given; the first error ends the encoding.\<close>

fun json_members :: "golib \<Rightarrow> (string \<times> go_value) list \<Rightarrow> error + string list" where
  "json_members lib [] = Inr []"
| "json_members lib ((k, v) # kvs) =
     (case json_string lib k of
        Inl err \<Rightarrow> Inl err
      | Inr ks \<Rightarrow>
          (case json_scalar lib v of
             Inl err \<Rightarrow> Inl err
           | Inr vs \<Rightarrow>
               (case json_members lib kvs of
                  Inl err \<Rightarrow> Inl err
                | Inr rest \<Rightarrow> Inr ((ks @ '':'' @ vs) # rest))))"

fun join_comma :: "string list \<Rightarrow> string" where
  "join_comma [] = []"
| "join_comma [s] = s"
| "join_comma (s # t # ss) = s @ '','' @ join_comma (t # ss)"

text \<open>\<^verbatim>\<open>json.Marshal(value)\<close>: the bytes, or the error.\<close>

definition json_Marshal :: "golib \<Rightarrow> go_value \<Rightarrow> error + string" where
  "json_Marshal lib v =
     (case v of
        VStringMap kvs \<Rightarrow>
          (case json_members lib kvs of
             Inl err \<Rightarrow> Inl err
           | Inr ms \<Rightarrow> Inr (''{'' @ join_comma ms @ ''}''))
      | _ \<Rightarrow> json_scalar lib v)"

text \<open>
  \<^verbatim>\<open>convertedValue[keyString] = value\<close> on a \<^verbatim>\<open>map[string]interface{}\<close>: the entry is
  stored at its place in key order, replacing an entry of the same key.
\<close>

fun map_store :: "string \<Rightarrow> go_value \<Rightarrow> (string \<times> go_value) list \<Rightarrow> (string \<times> go_value) list" where
  "map_store k v [] = [(k, v)]"
| "map_store k v ((k', v') # m) =
     (if k' < k then (k', v') # map_store k v m
      else if k' = k then (k, v) # m
      else (k, v) # (k', v') # m)"

section \<open>getStringConverter\<close>

text \<open>
  A converter renders one decoded value as a string. It may log, and a type assertion
  or an index inside it may panic.
\<close>

type_synonym stringConverter = "go_value \<Rightarrow> panic + (string \<times> log_entry list)"

text \<open>The \<^verbatim>\<open>range\<close> loop of the map converter: it returns early at a key that is no string.\<close>

fun convertKeys ::
  "(go_value \<times> go_value) list \<Rightarrow> (string \<times> go_value) list \<Rightarrow> (string \<times> go_value) list option" where
  "convertKeys [] convertedValue = Some convertedValue"
| "convertKeys ((key, value) # rest) convertedValue =
     (case key of
        VString keyString \<Rightarrow> convertKeys rest (map_store keyString value convertedValue)
      | _ \<Rightarrow> None)"

definition mapConverter :: "golib \<Rightarrow> stringConverter" where
  "mapConverter lib value =
     (case value of
        VMap mapValue \<Rightarrow>
          (case convertKeys mapValue [] of
             None \<Rightarrow> Inr ('''', [LogNonStringKey])
           | Some convertedValue \<Rightarrow>
               (case json_Marshal lib (VStringMap convertedValue) of
                  Inl err \<Rightarrow> Inr ('''', [LogErrorJSONSerializing err])
                | Inr bytes \<Rightarrow> Inr (bytes, [])))
      | _ \<Rightarrow> Inr ('''', [LogNonMapValue]))"

text \<open>On an error \<^verbatim>\<open>json.Marshal\<close> returns no bytes, so \<^verbatim>\<open>string(bytes)\<close> is empty.\<close>

definition messageConverter :: "golib \<Rightarrow> stringConverter" where
  "messageConverter lib value =
     (case json_Marshal lib value of
        Inl err \<Rightarrow> Inr ('''', [LogErrorJSONSerializingIgnoring err])
      | Inr bytes \<Rightarrow> Inr (bytes, []))"

definition sprintfConverter :: "golib \<Rightarrow> stringConverter" where
  "sprintfConverter lib value = Inr (Sprintf_v lib value, [])"

definition stringValueConverter :: stringConverter where
  "stringValueConverter value =
     (case value of VString s \<Rightarrow> Inr (s, []) | _ \<Rightarrow> Inl PanicTypeAssertion)"

text \<open>
  The enum converter. \<^verbatim>\<open>int32(len(param.Enum))\<close> truncates the length to 32 bits, the
  comparison is signed, and the index expression panics outside \<open>0 \<le> i < len\<close>.
\<close>

definition enumConverter :: "Parameter \<Rightarrow> stringConverter" where
  "enumConverter param value =
     (case value of
        VInt32 rawValue \<Rightarrow>
          (if sint rawValue \<ge> sint (word_of_nat (length (param_Enum param)) :: 32 word)
           then Inr ('''', [LogEnumOutOfBounds rawValue (param_Name param)])
           else if sint rawValue < 0 \<or> length (param_Enum param) \<le> nat (sint rawValue)
           then Inl PanicIndexOutOfRange
           else (case param_Enum param ! nat (sint rawValue) of
                   VString enumValue \<Rightarrow> Inr (enumValue, [])
                 | _ \<Rightarrow> Inr ('''', [])))
      | _ \<Rightarrow> Inl PanicTypeAssertion)"

definition getStringConverter ::
  "golib \<Rightarrow> FieldDescriptor \<Rightarrow> Parameter \<Rightarrow> error + stringConverter" where
  "getStringConverter lib fieldDesc param =
     (if IsMap fieldDesc then Inr (mapConverter lib)
      else
        (case GetType fieldDesc of
           TYPE_MESSAGE \<Rightarrow> Inr (messageConverter lib)
         | TYPE_BOOL \<Rightarrow> Inr (sprintfConverter lib)
         | TYPE_INT64 \<Rightarrow> Inr (sprintfConverter lib)
         | TYPE_UINT64 \<Rightarrow> Inr (sprintfConverter lib)
         | TYPE_INT32 \<Rightarrow> Inr (sprintfConverter lib)
         | TYPE_FIXED64 \<Rightarrow> Inr (sprintfConverter lib)
         | TYPE_FIXED32 \<Rightarrow> Inr (sprintfConverter lib)
         | TYPE_UINT32 \<Rightarrow> Inr (sprintfConverter lib)
         | TYPE_SFIXED32 \<Rightarrow> Inr (sprintfConverter lib)
         | TYPE_SFIXED64 \<Rightarrow> Inr (sprintfConverter lib)
         | TYPE_SINT32 \<Rightarrow> Inr (sprintfConverter lib)
         | TYPE_SINT64 \<Rightarrow> Inr (sprintfConverter lib)
         | TYPE_DOUBLE \<Rightarrow> Inr (sprintfConverter lib)
         | TYPE_FLOAT \<Rightarrow> Inr (sprintfConverter lib)
         | TYPE_STRING \<Rightarrow> Inr stringValueConverter
         | TYPE_GROUP \<Rightarrow> Inl ErrGroup
         | TYPE_BYTES \<Rightarrow> Inl ErrBytesNotImplemented
         | TYPE_ENUM \<Rightarrow> Inr (enumConverter param)
         | TYPE_UNRECOGNIZED \<Rightarrow> Inl (ErrUnhandledFieldType (GetType fieldDesc))))"

section \<open>convertValues\<close>

text \<open>
  The loop \<^verbatim>\<open>for i, value := range values { stringValues[i] = toString(value) }\<close> over a
  slice made with \<^verbatim>\<open>make([]string, len(values))\<close>.
\<close>

fun convertLoop ::
  "stringConverter \<Rightarrow> go_value list \<Rightarrow> nat \<Rightarrow> string list \<Rightarrow> panic + (string list \<times> log_entry list)" where
  "convertLoop toString [] i stringValues = Inr (stringValues, [])"
| "convertLoop toString (value # rest) i stringValues =
     (case toString value of
        Inl p \<Rightarrow> Inl p
      | Inr (s, l) \<Rightarrow>
          (case convertLoop toString rest (Suc i) (stringValues[i := s]) of
             Inl p \<Rightarrow> Inl p
           | Inr (ss, l') \<Rightarrow> Inr (ss, l @ l')))"

definition convertValues ::
  "Message \<Rightarrow> FieldDescriptor \<Rightarrow> stringConverter \<Rightarrow> panic + (string list \<times> log_entry list)" where
  "convertValues message fieldDesc toString =
     (let rawValue = GetField message fieldDesc in
      case (if IsRepeated fieldDesc \<and> \<not> IsMap fieldDesc
            then (case rawValue of VSlice vs \<Rightarrow> Inr vs | _ \<Rightarrow> Inl PanicTypeAssertion)
            else Inr [rawValue]) of
        Inl p \<Rightarrow> Inl p
      | Inr values \<Rightarrow> convertLoop toString values 0 (replicate (length values) ''''))"

section \<open>getParamWriter\<close>

text \<open>
  \<^verbatim>\<open>runtime.ClientRequest\<close> is an interface of go-openapi. A request is modelled by the
  calls it has received, in order, and by the error (or nil) with which its implementation
  answers a call. The request of go-openapi's client answers nil to each of the four calls.
\<close>

datatype payload = StringsReader string

datatype request_call =
    SetQueryParam string "string list"
  | SetHeaderParam string "string list"
  | SetPathParam string string
  | SetBodyParam payload

record ClientRequest =
  req_calls :: "request_call list"
  req_reply :: "request_call \<Rightarrow> error option"

definition invoke :: "request_call \<Rightarrow> ClientRequest \<Rightarrow> error option \<times> ClientRequest" where
  "invoke c request = (req_reply request c, request\<lparr>req_calls := req_calls request @ [c]\<rparr>)"

definition newRequest :: ClientRequest where
  "newRequest = \<lparr>req_calls = [], req_reply = (\<lambda>c. None)\<rparr>"

type_synonym paramWriter =
  "string list \<Rightarrow> ClientRequest \<Rightarrow> panic + (error option \<times> ClientRequest \<times> log_entry list)"

definition queryWriter :: "Parameter \<Rightarrow> paramWriter" where
  "queryWriter param values request =
     (case invoke (SetQueryParam (param_Name param) values) request of
        (err, request') \<Rightarrow> Inr (err, request', []))"

definition headerWriter :: "Parameter \<Rightarrow> paramWriter" where
  "headerWriter param values request =
     (case invoke (SetHeaderParam (param_Name param) values) request of
        (err, request') \<Rightarrow> Inr (err, request', []))"

text \<open>The warning is logged before \<^verbatim>\<open>values[0]\<close> is read; on an empty slice the read panics.\<close>

definition pathWriter :: "Parameter \<Rightarrow> paramWriter" where
  "pathWriter param values request =
     (let l = (if length values > 1 then [LogMultipleValues (param_Name param)] else []) in
      case values of
        [] \<Rightarrow> Inl PanicIndexOutOfRange
      | v # _ \<Rightarrow>
          (case invoke (SetPathParam (param_Name param) v) request of
             (err, request') \<Rightarrow> Inr (err, request', l)))"

definition bodyWriter :: "Parameter \<Rightarrow> paramWriter" where
  "bodyWriter param values request =
     (let l = (if length values > 1 then [LogMultipleValues (param_Name param)] else []) in
      case values of
        [] \<Rightarrow> Inl PanicIndexOutOfRange
      | v # _ \<Rightarrow>
          (case invoke (SetBodyParam (StringsReader v)) request of
             (err, request') \<Rightarrow> Inr (err, request', l)))"

definition getParamWriter :: "Parameter \<Rightarrow> error + paramWriter" where
  "getParamWriter param =
     (if param_In param = ''query'' then Inr (queryWriter param)
      else if param_In param = ''header'' then Inr (headerWriter param)
      else if param_In param = ''path'' then Inr (pathWriter param)
      else if param_In param = ''body'' then Inr (bodyWriter param)
      else if param_In param = ''formData'' then Inl ErrFormData
      else if param_In param = ''cookie'' then Inl ErrCookie
      else Inl (ErrUnknownParameterLocation (param_In param) (param_Name param)))"

section \<open>newPathWrapper\<close>

text \<open>
  \<^verbatim>\<open>strings.Replace(s, old, new, -1)\<close> for a pattern \<open>old\<close> that is not empty: every
  non-overlapping occurrence, from the left, is replaced.
\<close>

function strings_Replace :: "string \<Rightarrow> string \<Rightarrow> string \<Rightarrow> string" where
  "strings_Replace [] old new = []"
| "strings_Replace (c # s) old new =
     (if old \<noteq> [] \<and> take (length old) (c # s) = old
      then new @ strings_Replace (drop (length old) (c # s)) old new
      else c # strings_Replace s old new)"
  by pat_completeness auto
termination
  by (relation "measure (\<lambda>(s, old, new). length s)") auto

type_synonym swaggerParamWriter =
  "Message \<Rightarrow> ClientRequest \<Rightarrow> panic + (error option \<times> ClientRequest \<times> log_entry list)"

text \<open>
  What reaches the transport when a request is submitted: the operation's method, path,
  media types and schemes, and the calls the writers made on the request. The transport
  answers with the response body or with an error.
\<close>

record Submission =
  sub_Method :: string
  sub_PathPattern :: string
  sub_ConsumesMediaTypes :: "string list"
  sub_ProducesMediaTypes :: "string list"
  sub_Schemes :: "string list"
  sub_Calls :: "request_call list"

type_synonym Runtime = "Submission \<Rightarrow> error + string"

record operationAdapter =
  swaggerClient :: Runtime
  httpMethod :: string
  swaggerPath :: string
  paramWriters :: "swaggerParamWriter list"
  inputProtoType :: MessageDescriptor
  outputProtoType :: MessageDescriptor

text \<open>The closure \<^verbatim>\<open>swaggerParamWriter\<close> that \<^verbatim>\<open>newPathWrapper\<close> builds for one parameter.\<close>

definition swaggerParamWriter ::
  "FieldDescriptor \<Rightarrow> stringConverter \<Rightarrow> paramWriter \<Rightarrow> swaggerParamWriter" where
  "swaggerParamWriter fieldDesc stringConverter paramWriter message request =
     (case convertValues message fieldDesc stringConverter of
        Inl p \<Rightarrow> Inl p
      | Inr (stringValues, l) \<Rightarrow>
          (case paramWriter stringValues request of
             Inl p \<Rightarrow> Inl p
           | Inr (err, request', l') \<Rightarrow> Inr (err, request', l @ l')))"

text \<open>
  The loop \<^verbatim>\<open>for _, param := range parameters\<close>. \<^verbatim>\<open>parameters\<close> is a Go map; the list
  holds its values in the order the loop visits them (any order is possible).
\<close>

fun bindParameters ::
  "golib \<Rightarrow> MessageDescriptor \<Rightarrow> Parameter list \<Rightarrow> swaggerParamWriter list \<Rightarrow>
   error + swaggerParamWriter list" where
  "bindParameters lib inputProtoType' [] writers = Inr writers"
| "bindParameters lib inputProtoType' (param # rest) writers =
     (let fieldName = strings_Replace (param_Name param) ''-'' ''_'' in
      case FindFieldByName inputProtoType' fieldName of
        None \<Rightarrow> Inl (ErrCouldNotFindProtoField fieldName)
      | Some fieldDesc \<Rightarrow>
          (case getStringConverter lib fieldDesc param of
             Inl err \<Rightarrow> Inl err
           | Inr stringConverter \<Rightarrow>
               (case getParamWriter param of
                  Inl err \<Rightarrow> Inl err
                | Inr paramWriter \<Rightarrow>
                    bindParameters lib inputProtoType' rest
                      (writers @ [swaggerParamWriter fieldDesc stringConverter paramWriter]))))"

definition newPathWrapper ::
  "golib \<Rightarrow> Runtime \<Rightarrow> string \<Rightarrow> string \<Rightarrow> Parameter list \<Rightarrow> MethodDescriptor \<Rightarrow>
   error + operationAdapter" where
  "newPathWrapper lib swaggerClient' httpMethod' swaggerPath' parameters method =
     (let inputProtoType' = md_InputType method in
      case bindParameters lib inputProtoType' parameters [] of
        Inl err \<Rightarrow> Inl err
      | Inr writers \<Rightarrow>
          Inr \<lparr>swaggerClient = swaggerClient',
               httpMethod = httpMethod',
               swaggerPath = swaggerPath',
               paramWriters = writers,
               inputProtoType = inputProtoType',
               outputProtoType = md_OutputType method\<rparr>)"

section \<open>getRequestWriter, ReadResponse and handleGRPCRequest\<close>

text \<open>The loop of \<^verbatim>\<open>getRequestWriter\<close>: the first writer that returns an error ends it.\<close>

fun runWriters ::
  "swaggerParamWriter list \<Rightarrow> Message \<Rightarrow> ClientRequest \<Rightarrow>
   panic + (error option \<times> ClientRequest \<times> log_entry list)" where
  "runWriters [] msg request = Inr (None, request, [])"
| "runWriters (writer # rest) msg request =
     (case writer msg request of
        Inl p \<Rightarrow> Inl p
      | Inr (Some err, request', l) \<Rightarrow> Inr (Some err, request', l)
      | Inr (None, request', l) \<Rightarrow>
          (case runWriters rest msg request' of
             Inl p \<Rightarrow> Inl p
           | Inr (err, request'', l') \<Rightarrow> Inr (err, request'', l @ l')))"

definition getRequestWriter ::
  "operationAdapter \<Rightarrow> Message \<Rightarrow> ClientRequest \<Rightarrow>
   panic + (error option \<times> ClientRequest \<times> log_entry list)" where
  "getRequestWriter p msg request = runWriters (paramWriters p) msg request"

text \<open>
  \<^verbatim>\<open>jsonpb.Unmarshaler.Unmarshal\<close> fills a fresh message of the given type from a body
  and returns an error or nil; it is a library function, taken as a parameter.
\<close>

type_synonym Unmarshaler = "MessageDescriptor \<Rightarrow> string \<Rightarrow> Message \<times> error option"

datatype submit_result = NilResult | MessageResult Message

definition ReadResponse ::
  "Unmarshaler \<Rightarrow> operationAdapter \<Rightarrow> string \<Rightarrow> submit_result \<times> error option" where
  "ReadResponse permissiveJSONUnmarshaler p body =
     (case permissiveJSONUnmarshaler (outputProtoType p) body of
        (protoOut, err) \<Rightarrow> (MessageResult protoOut, err))"

record ClientOperation =
  op_ID :: string
  op_Method :: string
  op_PathPattern :: string
  op_ConsumesMediaTypes :: "string list"
  op_ProducesMediaTypes :: "string list"
  op_Schemes :: "string list"
  op_Params :: "ClientRequest \<Rightarrow> panic + (error option \<times> ClientRequest \<times> log_entry list)"
  op_Reader :: "string \<Rightarrow> submit_result \<times> error option"

text \<open>
  \<^verbatim>\<open>Runtime.Submit\<close> of go-openapi, outside the repository; its contract as the adapter
  relies on it: it builds a new request and runs the operation's \<^verbatim>\<open>Params\<close> writer on it;
  when the writer returns an error, \<^verbatim>\<open>Submit\<close> returns that error and nothing is sent;
  otherwise the request goes to the transport, whose error is returned, or whose response
  is handed to the operation's \<^verbatim>\<open>Reader\<close>. The second component lists what was sent.
\<close>

definition Submit ::
  "Runtime \<Rightarrow> ClientOperation \<Rightarrow>
   panic + ((submit_result \<times> error option) \<times> Submission list \<times> log_entry list)" where
  "Submit rt operation =
     (case op_Params operation newRequest of
        Inl p \<Rightarrow> Inl p
      | Inr (Some err, request, l) \<Rightarrow> Inr ((NilResult, Some err), [], l)
      | Inr (None, request, l) \<Rightarrow>
          (let submission =
                 \<lparr>sub_Method = op_Method operation,
                  sub_PathPattern = op_PathPattern operation,
                  sub_ConsumesMediaTypes = op_ConsumesMediaTypes operation,
                  sub_ProducesMediaTypes = op_ProducesMediaTypes operation,
                  sub_Schemes = op_Schemes operation,
                  sub_Calls = req_calls request\<rparr> in
           case rt submission of
             Inl err \<Rightarrow> Inr ((NilResult, Some err), [submission], l)
           | Inr body \<Rightarrow> Inr (op_Reader operation body, [submission], l)))"

text \<open>
  The gRPC stream: \<^verbatim>\<open>RecvMsg\<close> decodes the inbound payload into a fresh message of the
  given type, or fails; \<^verbatim>\<open>SendMsg\<close> returns an error or nil.
\<close>

record ServerStream =
  RecvMsg :: "MessageDescriptor \<Rightarrow> error + Message"
  SendMsg :: "Message \<Rightarrow> error option"

text \<open>What one call did besides returning: submissions to the transport, messages sent, log lines.\<close>

record effects =
  submitted :: "Submission list"
  sent :: "Message list"
  logged :: "log_entry list"

definition handleGRPCRequest ::
  "Unmarshaler \<Rightarrow> operationAdapter \<Rightarrow> ServerStream \<Rightarrow> panic + (error option \<times> effects)" where
  "handleGRPCRequest permissiveJSONUnmarshaler p stream =
     (case RecvMsg stream (inputProtoType p) of
        Inl err \<Rightarrow>
          Inr (Some err,
               \<lparr>submitted = [], sent = [], logged = [LogErrorDeserializingRequest err]\<rparr>)
      | Inr protoIn \<Rightarrow>
          (let operation =
                 \<lparr>op_ID = '''',
                  op_Method = httpMethod p,
                  op_PathPattern = swaggerPath p,
                  op_ConsumesMediaTypes = [''application/json''],
                  op_ProducesMediaTypes = [''application/json''],
                  op_Schemes = [''http''],
                  op_Params = getRequestWriter p protoIn,
                  op_Reader = ReadResponse permissiveJSONUnmarshaler p\<rparr> in
           case Submit (swaggerClient p) operation of
             Inl pn \<Rightarrow> Inl pn
           | Inr ((result, Some err), subs, l) \<Rightarrow>
               Inr (Some err, \<lparr>submitted = subs, sent = [], logged = l @ [LogNonNilError err]\<rparr>)
           | Inr ((result, None), subs, l) \<Rightarrow>
               (case result of
                  NilResult \<Rightarrow>
                    Inr (Some ErrCouldNotCast, \<lparr>submitted = subs, sent = [], logged = l\<rparr>)
                | MessageResult resultMessage \<Rightarrow>
                    Inr (SendMsg stream resultMessage,
                         \<lparr>submitted = subs, sent = [resultMessage], logged = l\<rparr>))))"

section \<open>Concrete inputs\<close>

text \<open>
  An instance of \<open>golib\<close> for evaluating examples. The examples below contain only
  values that are written out, so nothing depends on the two functions chosen here.
\<close>

definition lib0 :: golib where
  "lib0 = \<lparr>fmt_other = (\<lambda>v. []), json_other = (\<lambda>v. Inl (ErrExternal ''json: not written out''))\<rparr>"

text \<open>Fields of the two \<^verbatim>\<open>TestMessage\<close> types of \<^verbatim>\<open>path_wrapper_test.go\<close>.\<close>

definition stringValue_field :: FieldDescriptor where
  "stringValue_field =
     \<lparr>fd_Name = ''stringValue'', fd_Label = LABEL_OPTIONAL, fd_Type = TYPE_STRING,
      fd_MapEntry = False\<rparr>"

definition enumValue_field :: FieldDescriptor where
  "enumValue_field =
     \<lparr>fd_Name = ''enumValue'', fd_Label = LABEL_OPTIONAL, fd_Type = TYPE_ENUM,
      fd_MapEntry = False\<rparr>"

definition mapValue_field :: FieldDescriptor where
  "mapValue_field =
     \<lparr>fd_Name = ''mapValue'', fd_Label = LABEL_REPEATED, fd_Type = TYPE_MESSAGE,
      fd_MapEntry = True\<rparr>"

definition repeatedValue_field :: FieldDescriptor where
  "repeatedValue_field =
     \<lparr>fd_Name = ''repeatedValue'', fd_Label = LABEL_REPEATED, fd_Type = TYPE_STRING,
      fd_MapEntry = False\<rparr>"

text \<open>The parameter of the enum fixture, \<^verbatim>\<open>(&spec.Parameter{}).WithEnum("first", "second")\<close>.\<close>

definition enum_param :: Parameter where
  "enum_param =
     \<lparr>param_Name = [], param_In = [], param_Enum = [VString ''first'', VString ''second'']\<rparr>"

definition isString :: "go_value \<Rightarrow> bool" where
  "isString v = (case v of VString s \<Rightarrow> True | _ \<Rightarrow> False)"

text \<open>
  An adapter with three writers: the first sets a query parameter, the second fails,
  the third would set a header.
\<close>

definition failing_adapter :: operationAdapter where
  "failing_adapter =
     \<lparr>swaggerClient = (\<lambda>submission. Inr ''{}''),
      httpMethod = ''GET'',
      swaggerPath = ''/things'',
      paramWriters =
        [\<lambda>msg request. queryWriter \<lparr>param_Name = ''q'', param_In = ''query'', param_Enum = []\<rparr>
                          [''1''] request,
         \<lambda>msg request. Inr (Some (ErrExternal ''writer failed''), request, []),
         \<lambda>msg request. headerWriter \<lparr>param_Name = ''h'', param_In = ''header'', param_Enum = []\<rparr>
                          [''2''] request],
      inputProtoType = [stringValue_field],
      outputProtoType = []\<rparr>"

definition failing_stream :: ServerStream where
  "failing_stream = \<lparr>RecvMsg = (\<lambda>d. Inl (ErrExternal ''bad payload'')), SendMsg = (\<lambda>m. None)\<rparr>"

definition foo_stream :: ServerStream where
  "foo_stream = \<lparr>RecvMsg = (\<lambda>d. Inr (\<lambda>fd. VString ''foo'')), SendMsg = (\<lambda>m. None)\<rparr>"

definition unmarshaler0 :: Unmarshaler where
  "unmarshaler0 = (\<lambda>d body. (\<lambda>fd. VNil, None))"

text \<open>
  A method whose input message has the one field \<open>stringValue\<close>, and two parameters: one
  bound to that field but placed in a cookie, one that names no field of the message.
\<close>

definition method0 :: MethodDescriptor where
  "method0 = \<lparr>md_InputType = [stringValue_field], md_OutputType = []\<rparr>"

definition cookie_param :: Parameter where
  "cookie_param = \<lparr>param_Name = ''stringValue'', param_In = ''cookie'', param_Enum = []\<rparr>"

definition absent_param :: Parameter where
  "absent_param = \<lparr>param_Name = ''absent-field'', param_In = ''query'', param_Enum = []\<rparr>"

definition bytesValue_field :: FieldDescriptor where
  "bytesValue_field =
     \<lparr>fd_Name = ''bytesValue'', fd_Label = LABEL_OPTIONAL, fd_Type = TYPE_BYTES,
      fd_MapEntry = False\<rparr>"

section \<open>The enum converter\<close>

lemma sint_length32: "n < 2 ^ 31 \<Longrightarrow> sint (word_of_nat n :: 32 word) = int n"
  by (simp add: signed_of_nat signed_take_bit_int_eq_self)

text \<open>
  With an enum list that fits 32 bits, an ordinal inside the list yields the string at
  that index, and an ordinal at or above the length yields the empty string and a log line.
\<close>

lemma enumConverter_in_range:
  assumes "length (param_Enum param) < 2 ^ 31"
    and "0 \<le> sint i" and "nat (sint i) < length (param_Enum param)"
    and "param_Enum param ! nat (sint i) = VString s"
  shows "enumConverter param (VInt32 i) = Inr (s, [])"
  using assms by (simp add: enumConverter_def sint_length32)

lemma enumConverter_above_range:
  assumes "length (param_Enum param) < 2 ^ 31"
    and "int (length (param_Enum param)) \<le> sint i"
  shows "enumConverter param (VInt32 i) = Inr ([], [LogEnumOutOfBounds i (param_Name param)])"
  using assms by (simp add: enumConverter_def sint_length32)

text \<open>
  The guard compares the ordinal with the length only, so a negative ordinal passes it
  and reaches the index expression.
\<close>

lemma enumConverter_negative:
  assumes "length (param_Enum param) < 2 ^ 31" and "sint i < 0"
  shows "enumConverter param (VInt32 i) = Inl PanicIndexOutOfRange"
  using assms by (simp add: enumConverter_def sint_length32)

text \<open>
  C1. For the enum field of the test fixture, with the parameter enum list
  \<open>["first", "second"]\<close>: the converter exists, ordinal 1 converts to \<open>"second"\<close>,
  ordinal 2 converts to the empty string, and ordinal -1, which is out of range as well,
  does not convert to the empty string: the index expression panics.
\<close>

theorem enum_negative_ordinal_panics:
  "getStringConverter lib enumValue_field enum_param = Inr (enumConverter enum_param) \<and>
   enumConverter enum_param (VInt32 1) = Inr (''second'', []) \<and>
   enumConverter enum_param (VInt32 2) =
     Inr ('''', [LogEnumOutOfBounds 2 (param_Name enum_param)]) \<and>
   enumConverter enum_param (VInt32 (- 1)) = Inl PanicIndexOutOfRange"
  by (simp add: getStringConverter_def enumValue_field_def IsMap_def GetType_def
      enumConverter_def enum_param_def)

section \<open>The map converter\<close>

text \<open>The loop gives up exactly when some key is not a string.\<close>

lemma convertKeys_None_iff:
  "convertKeys kvs acc = None \<longleftrightarrow> \<not> list_all (\<lambda>kv. isString (fst kv)) kvs"
  by (induction kvs arbitrary: acc) (auto simp: isString_def split: go_value.splits)

text \<open>Storing an entry keeps the keys strictly ascending and replaces the entry of the key.\<close>

lemma map_store_keys: "set (map fst (map_store k v m)) = insert k (set (map fst m))"
  by (induction m) (force split: if_splits)+

lemma map_store_sorted:
  assumes "sorted_wrt (<) (map fst m)"
  shows "sorted_wrt (<) (map fst (map_store k v m))"
  using assms
proof (induction m)
  case Nil
  then show ?case by simp
next
  case (Cons e m)
  obtain k' v' where e: "e = (k', v')" by (cases e)
  from Cons.prems e have above: "\<forall>x \<in> set (map fst m). k' < x"
    and rest: "sorted_wrt (<) (map fst m)"
    by auto
  consider (below) "k' < k" | (same) "k' = k" | (over) "k < k'"
    by (cases k k' rule: linorder_cases) auto
  then show ?case
  proof cases
    case below
    with above have "\<forall>x \<in> set (map fst (map_store k v m)). k' < x"
      unfolding map_store_keys by auto
    with Cons.IH[OF rest] below e show ?thesis by auto
  next
    case same
    with above rest e show ?thesis by auto
  next
    case over
    with above rest e show ?thesis by auto
  qed
qed

lemma map_store_set:
  assumes "sorted_wrt (<) (map fst m)"
  shows "set (map_store k v m) = insert (k, v) {e \<in> set m. fst e \<noteq> k}"
  using assms
proof (induction m)
  case Nil
  then show ?case by simp
next
  case (Cons e m)
  obtain k' v' where e: "e = (k', v')" by (cases e)
  from Cons.prems e have above: "\<forall>x \<in> set m. k' < fst x"
    and rest: "sorted_wrt (<) (map fst m)"
    by auto
  consider (below) "k' < k" | (same) "k' = k" | (over) "k < k'"
    by (cases k k' rule: linorder_cases) auto
  then show ?case
  proof cases
    case below
    with Cons.IH[OF rest] e show ?thesis by auto
  next
    case same
    with above have "\<forall>x \<in> set m. fst x \<noteq> k" by auto
    with same e show ?thesis by auto
  next
    case over
    with above have "\<forall>x \<in> set m. fst x \<noteq> k" by auto
    with over e show ?thesis by auto
  qed
qed

text \<open>
  What the loop builds from a map whose keys are distinct: the entries already stored
  under other keys, and one entry per entry of the map, the key unwrapped.
\<close>

lemma convertKeys_Some:
  assumes "convertKeys kvs acc = Some m"
    and "sorted_wrt (<) (map fst acc)"
    and "distinct (map fst kvs)"
  shows "sorted_wrt (<) (map fst m) \<and>
         set m = {e \<in> set acc. VString (fst e) \<notin> fst ` set kvs} \<union>
                 {(s, v). (VString s, v) \<in> set kvs}"
  using assms
proof (induction kvs arbitrary: acc)
  case Nil
  then show ?case by simp
next
  case (Cons kv kvs)
  obtain k v where kv: "kv = (k, v)" by (cases kv)
  from Cons.prems(1) kv obtain s where k: "k = VString s"
    by (cases k) auto
  from Cons.prems kv k have step: "convertKeys kvs (map_store s v acc) = Some m"
    by simp
  have srt: "sorted_wrt (<) (map fst (map_store s v acc))"
    using Cons.prems(2) by (rule map_store_sorted)
  have dst: "distinct (map fst kvs)" and fresh: "VString s \<notin> fst ` set kvs"
    using Cons.prems(3) kv k by auto
  from Cons.IH[OF step srt dst] have
    IH: "sorted_wrt (<) (map fst m)"
      "set m = {e \<in> set (map_store s v acc). VString (fst e) \<notin> fst ` set kvs} \<union>
               {(s, v). (VString s, v) \<in> set kvs}"
    by auto
  have "set m = {e \<in> set acc. VString (fst e) \<notin> fst ` set (kv # kvs)} \<union>
                {(s, v). (VString s, v) \<in> set (kv # kvs)}"
    unfolding IH(2) map_store_set[OF Cons.prems(2)] using fresh kv k by force
  with IH(1) show ?case by simp
qed

lemma strict_sorted_keys_unique:
  fixes m m' :: "(string \<times> go_value) list"
  assumes "sorted_wrt (<) (map fst m)" and "sorted_wrt (<) (map fst m')" and "set m = set m'"
  shows "m = m'"
proof -
  have d: "distinct (map fst m)" "distinct (map fst m')" "sorted (map fst m)" "sorted (map fst m')"
    using assms(1,2) by (auto simp: strict_sorted_iff)
  have "inj_on fst (set m \<union> set m')"
    using d(1) assms(3) by (simp add: distinct_map)
  then show ?thesis
    using d assms(3) by (intro map_sorted_distinct_set_unique[where f = fst]) auto
qed

lemma convertKeys_total:
  assumes "list_all (\<lambda>kv. isString (fst kv)) kvs"
  shows "\<exists>m. convertKeys kvs [] = Some m"
  using assms convertKeys_None_iff[of kvs "[]"] by (cases "convertKeys kvs []") auto

text \<open>The loop's result does not depend on the order in which the entries are visited.\<close>

lemma convertKeys_order:
  assumes "convertKeys kvs [] = Some m"
    and "distinct (map fst kvs)"
    and "set kvs' = set kvs" and "distinct (map fst kvs')"
  shows "convertKeys kvs' [] = Some m"
proof -
  have "list_all (\<lambda>kv. isString (fst kv)) kvs"
    using assms(1) convertKeys_None_iff[of kvs "[]"] by auto
  then have "list_all (\<lambda>kv. isString (fst kv)) kvs'"
    using assms(3) by (simp add: list_all_iff)
  then obtain m' where m': "convertKeys kvs' [] = Some m'"
    using convertKeys_total by blast
  have "sorted_wrt (<) (map fst m)" and "set m = {(s, v). (VString s, v) \<in> set kvs}"
    using convertKeys_Some[OF assms(1) _ assms(2)] by auto
  moreover have "sorted_wrt (<) (map fst m')" and "set m' = {(s, v). (VString s, v) \<in> set kvs'}"
    using convertKeys_Some[OF m' _ assms(4)] by auto
  ultimately have "m' = m"
    using assms(3) by (intro strict_sorted_keys_unique) auto
  with m' show ?thesis by simp
qed

lemma json_members_length: "json_members lib kvs = Inr ms \<Longrightarrow> length ms = length kvs"
  by (induction kvs arbitrary: ms) (auto split: sum.splits)

text \<open>
  C2, as the code has it. For a map-typed field the converter is the map converter, and
  on a mapping with a key that is not a string it returns the empty string and logs one
  error; it does not fail.
\<close>

theorem map_converter_non_string_key:
  assumes "IsMap fieldDesc"
    and "\<not> list_all (\<lambda>kv. isString (fst kv)) mapValue"
  shows "getStringConverter lib fieldDesc param = Inr (mapConverter lib) \<and>
         mapConverter lib (VMap mapValue) = Inr ('''', [LogNonStringKey])"
proof -
  have "convertKeys mapValue [] = None"
    using assms(2) by (simp add: convertKeys_None_iff)
  then show ?thesis
    using assms(1) by (simp add: getStringConverter_def mapConverter_def)
qed

theorem map_converter_non_string_key_witness:
  "IsMap mapValue_field \<and>
   \<not> list_all (\<lambda>kv. isString (fst kv)) [(VString ''a'', VInt32 1), (VInt32 7, VInt32 2)] \<and>
   getStringConverter lib0 mapValue_field enum_param = Inr (mapConverter lib0) \<and>
   mapConverter lib0 (VMap [(VString ''a'', VInt32 1), (VInt32 7, VInt32 2)]) =
     Inr ('''', [LogNonStringKey])"
proof -
  have a: "IsMap mapValue_field"
    by (simp add: IsMap_def mapValue_field_def)
  have b: "\<not> list_all (\<lambda>kv. isString (fst kv)) [(VString ''a'', VInt32 1), (VInt32 7, VInt32 2)]"
    by (simp add: isString_def)
  from map_converter_non_string_key[OF a b, of lib0 enum_param] a b show ?thesis
    by simp
qed

text \<open>
  C2 as stated fails: on the mapping \<open>{7: "x"}\<close>, whose key is an \<open>int32\<close>, the map
  converter of the fixture's map field returns normally, with the empty string.
\<close>

theorem map_converter_type_error_counterexample:
  "getStringConverter lib0 mapValue_field enum_param = Inr (mapConverter lib0) \<and>
   mapConverter lib0 (VMap [(VInt32 7, VString ''x'')]) = Inr ('''', [LogNonStringKey]) \<and>
   \<not> isl (mapConverter lib0 (VMap [(VInt32 7, VString ''x'')]))"
  by (simp add: getStringConverter_def IsMap_def mapValue_field_def mapConverter_def)

text \<open>
  C8, as the code has it. For a map-typed field and a mapping whose keys are strings
  (and, as in any Go map, distinct): the loop builds the string-keyed map \<open>m\<close> that holds
  exactly the entries of the mapping; the converter returns what \<^verbatim>\<open>json.Marshal\<close> makes
  of \<open>m\<close>, a JSON object with one member per entry, when the serialization succeeds, and
  the empty string with a log line when it fails; and the result is the same for every
  order in which the entries are visited.
\<close>

theorem map_converter_serializes_entries:
  assumes "IsMap fieldDesc"
    and "list_all (\<lambda>kv. isString (fst kv)) mapValue"
    and "distinct (map fst mapValue)"
  shows "\<exists>m. getStringConverter lib fieldDesc param = Inr (mapConverter lib) \<and>
           convertKeys mapValue [] = Some m \<and>
           sorted_wrt (<) (map fst m) \<and>
           set m = {(s, v). (VString s, v) \<in> set mapValue} \<and>
           mapConverter lib (VMap mapValue) =
             (case json_members lib m of
                Inl err \<Rightarrow> Inr ('''', [LogErrorJSONSerializing err])
              | Inr ms \<Rightarrow> Inr (''{'' @ join_comma ms @ ''}'', [])) \<and>
           (\<forall>ms. json_members lib m = Inr ms \<longrightarrow> length ms = length m) \<and>
           (\<forall>mapValue'. set mapValue' = set mapValue \<and> distinct (map fst mapValue') \<longrightarrow>
              mapConverter lib (VMap mapValue') = mapConverter lib (VMap mapValue))"
proof -
  obtain m where m: "convertKeys mapValue [] = Some m"
    using convertKeys_total[OF assms(2)] by blast
  have conv: "getStringConverter lib fieldDesc param = Inr (mapConverter lib)"
    using assms(1) by (simp add: getStringConverter_def)
  have shape: "sorted_wrt (<) (map fst m)" "set m = {(s, v). (VString s, v) \<in> set mapValue}"
    using convertKeys_Some[OF m _ assms(3)] by auto
  have out: "mapConverter lib (VMap mapValue) =
             (case json_members lib m of
                Inl err \<Rightarrow> Inr ('''', [LogErrorJSONSerializing err])
              | Inr ms \<Rightarrow> Inr (''{'' @ join_comma ms @ ''}'', []))"
    using m by (simp add: mapConverter_def json_Marshal_def split: sum.splits)
  have order: "mapConverter lib (VMap mapValue') = mapConverter lib (VMap mapValue)"
    if "set mapValue' = set mapValue \<and> distinct (map fst mapValue')" for mapValue'
  proof -
    have "convertKeys mapValue' [] = Some m"
      using convertKeys_order[OF m assms(3)] that by blast
    with m show ?thesis by (simp add: mapConverter_def)
  qed
  from conv m shape out order show ?thesis
    by (auto simp: json_members_length)
qed

theorem map_converter_serializes_entries_witness:
  "IsMap mapValue_field \<and>
   list_all (\<lambda>kv. isString (fst kv)) [(VString ''foo'', VInt32 2), (VString ''bar'', VInt32 1)] \<and>
   distinct (map fst [(VString ''foo'', VInt32 2), (VString ''bar'', VInt32 1)]) \<and>
   mapConverter lib0 (VMap [(VString ''foo'', VInt32 2), (VString ''bar'', VInt32 1)]) =
     Inr (''{\"bar\":1,\"foo\":2}'', []) \<and>
   mapConverter lib0 (VMap [(VString ''bar'', VInt32 1), (VString ''foo'', VInt32 2)]) =
     mapConverter lib0 (VMap [(VString ''foo'', VInt32 2), (VString ''bar'', VInt32 1)])"
proof -
  let ?kvs = "[(VString ''foo'', VInt32 2), (VString ''bar'', VInt32 1)]"
  let ?kvs' = "[(VString ''bar'', VInt32 1), (VString ''foo'', VInt32 2)]"
  have a: "IsMap mapValue_field"
    by (simp add: IsMap_def mapValue_field_def)
  have b: "list_all (\<lambda>kv. isString (fst kv)) ?kvs"
    by (simp add: isString_def)
  have c: "distinct (map fst ?kvs)"
    by simp
  have d: "set ?kvs' = set ?kvs \<and> distinct (map fst ?kvs')"
    by auto
  from map_converter_serializes_entries[OF a b c, of lib0 enum_param] d
  have "mapConverter lib0 (VMap ?kvs') = mapConverter lib0 (VMap ?kvs)"
    by blast
  moreover have "mapConverter lib0 (VMap ?kvs) = Inr (''{\"bar\":1,\"foo\":2}'', [])"
    by (simp add: mapConverter_def json_Marshal_def json_string_def json_plain_def
        json_scalar_def FormatInt_def FormatUint.simps)
  ultimately show ?thesis using a b c by simp
qed

text \<open>
  C8 as stated fails: the mapping \<open>{"x": NaN}\<close> of a \<open>map<string, double>\<close> field has a
  string key, and the converter returns the empty string, which is no JSON object.
\<close>

theorem map_converter_nan_counterexample:
  "list_all (\<lambda>kv. isString (fst kv)) [(VString ''x'', VFloat64 0x7FF8000000000000)] \<and>
   getStringConverter lib0 mapValue_field enum_param = Inr (mapConverter lib0) \<and>
   mapConverter lib0 (VMap [(VString ''x'', VFloat64 0x7FF8000000000000)]) =
     Inr ('''', [LogErrorJSONSerializing (ErrExternal ''json: unsupported value: NaN'')])"
  by (simp add: isString_def getStringConverter_def IsMap_def mapValue_field_def
      mapConverter_def json_Marshal_def json_string_def json_plain_def json_scalar_def
      nonfinite64_def special64_def)

section \<open>convertValues\<close>

text \<open>
  The loop fills the slots \<open>i, i + 1, \<dots>\<close> of the result with the converted values, in
  order, and leaves the other slots alone.
\<close>

lemma convertLoop_map:
  assumes "\<forall>v \<in> set vs. toString v = Inr (str v, lg v)"
    and "i + length vs \<le> length acc"
  shows "convertLoop toString vs i acc =
           Inr (take i acc @ map str vs @ drop (i + length vs) acc, concat (map lg vs))"
  using assms
proof (induction vs arbitrary: i acc)
  case Nil
  then show ?case by simp
next
  case (Cons v vs)
  have i: "i < length acc"
    using Cons.prems(2) by simp
  have "convertLoop toString vs (Suc i) (acc[i := str v]) =
          Inr (take (Suc i) (acc[i := str v]) @ map str vs @
               drop (Suc i + length vs) (acc[i := str v]), concat (map lg vs))"
    using Cons.prems by (intro Cons.IH) auto
  moreover have "take (Suc i) (acc[i := str v]) = take i acc @ [str v]"
    using i by (simp add: take_Suc_conv_app_nth)
  moreover have "drop (Suc i + length vs) (acc[i := str v]) = drop (i + length (v # vs)) acc"
    by simp
  ultimately show ?case
    using Cons.prems(1) by simp
qed

lemma convertLoop_all:
  assumes "\<forall>v \<in> set vs. toString v = Inr (str v, lg v)"
  shows "convertLoop toString vs 0 (replicate (length vs) []) =
           Inr (map str vs, concat (map lg vs))"
  using convertLoop_map[OF assms, of 0 "replicate (length vs) []"] by simp

text \<open>
  C3. For a field that is repeated and not a map, whose decoded value is the sequence
  \<open>vs\<close>, extraction yields one converted string per element, in the order of \<open>vs\<close>.
  For every other field (singular, or map-typed) it yields the one-element sequence that
  holds the converter's result on the whole decoded value. (The converter is one that
  returns on the values it is given: \<open>str\<close> is its string and \<open>lg\<close> its log lines.)
\<close>

theorem convertValues_extracts:
  "(IsRepeated fieldDesc \<and> \<not> IsMap fieldDesc \<longrightarrow>
      GetField message fieldDesc = VSlice vs \<longrightarrow>
      (\<forall>v \<in> set vs. toString v = Inr (str v, lg v)) \<longrightarrow>
      convertValues message fieldDesc toString = Inr (map str vs, concat (map lg vs))) \<and>
   (\<not> (IsRepeated fieldDesc \<and> \<not> IsMap fieldDesc) \<longrightarrow>
      toString (GetField message fieldDesc) = Inr (s, l) \<longrightarrow>
      convertValues message fieldDesc toString = Inr ([s], l))"
proof (intro conjI impI)
  assume "IsRepeated fieldDesc \<and> \<not> IsMap fieldDesc"
    and "GetField message fieldDesc = VSlice vs"
    and "\<forall>v \<in> set vs. toString v = Inr (str v, lg v)"
  then show "convertValues message fieldDesc toString = Inr (map str vs, concat (map lg vs))"
    by (simp add: convertValues_def convertLoop_all)
next
  assume "\<not> (IsRepeated fieldDesc \<and> \<not> IsMap fieldDesc)"
    and "toString (GetField message fieldDesc) = Inr (s, l)"
  then show "convertValues message fieldDesc toString = Inr ([s], l)"
    by (auto simp: convertValues_def Let_def)
qed

theorem convertValues_extracts_witness:
  "convertValues (\<lambda>fd. VSlice [VString ''foo'', VString ''bar'', VString ''gaz''])
     repeatedValue_field stringValueConverter = Inr ([''foo'', ''bar'', ''gaz''], []) \<and>
   convertValues (\<lambda>fd. VString ''foo'') stringValue_field stringValueConverter =
     Inr ([''foo''], []) \<and>
   convertValues (\<lambda>fd. VMap [(VString ''foo'', VInt32 1)]) mapValue_field (mapConverter lib0) =
     Inr ([''{\"foo\":1}''], [])"
proof -
  let ?str = "\<lambda>v. case v of VString s \<Rightarrow> s | _ \<Rightarrow> []"
  let ?vs = "[VString ''foo'', VString ''bar'', VString ''gaz'']"
  have rep: "IsRepeated repeatedValue_field \<and> \<not> IsMap repeatedValue_field"
    by (simp add: IsRepeated_def IsMap_def repeatedValue_field_def)
  have all: "\<forall>v \<in> set ?vs. stringValueConverter v = Inr (?str v, [])"
    by (simp add: stringValueConverter_def)
  have one: "\<not> (IsRepeated stringValue_field \<and> \<not> IsMap stringValue_field)"
    by (simp add: IsRepeated_def stringValue_field_def)
  have whole: "\<not> (IsRepeated mapValue_field \<and> \<not> IsMap mapValue_field)"
    by (simp add: IsMap_def mapValue_field_def)
  have conv: "mapConverter lib0 (VMap [(VString ''foo'', VInt32 1)]) = Inr (''{\"foo\":1}'', [])"
    by (simp add: mapConverter_def json_Marshal_def json_string_def json_plain_def
        json_scalar_def FormatInt_def FormatUint.simps)
  have "convertValues (\<lambda>fd. VSlice ?vs) repeatedValue_field stringValueConverter =
          Inr (map ?str ?vs, concat (map (\<lambda>v. []) ?vs))"
    using convertValues_extracts[of repeatedValue_field "\<lambda>fd. VSlice ?vs" ?vs
        stringValueConverter ?str "\<lambda>v. []"] rep all
    by (simp add: GetField_def)
  moreover have "convertValues (\<lambda>fd. VString ''foo'') stringValue_field stringValueConverter =
          Inr ([''foo''], [])"
    using convertValues_extracts[of stringValue_field "\<lambda>fd. VString ''foo''" _
        stringValueConverter _ _ "''foo''" "[]"] one
    by (simp add: GetField_def stringValueConverter_def)
  moreover have "convertValues (\<lambda>fd. VMap [(VString ''foo'', VInt32 1)]) mapValue_field
          (mapConverter lib0) = Inr ([''{\"foo\":1}''], [])"
    using convertValues_extracts[of mapValue_field "\<lambda>fd. VMap [(VString ''foo'', VInt32 1)]" _
        "mapConverter lib0" _ _ "''{\"foo\":1}''" "[]"] whole conv
    by (simp add: GetField_def)
  ultimately show ?thesis by simp
qed

section \<open>getParamWriter\<close>

text \<open>
  C4. For a value sequence \<open>v # vs\<close> (at least one value): the path placer makes one
  call on the request, \<^verbatim>\<open>SetPathParam\<close> with the first value, and the body placer
  makes one call, \<^verbatim>\<open>SetBodyParam\<close> with a reader over exactly the first value. The
  other values reach no call. Either placer returns what the request answered to that
  call (nil for the request of go-openapi's client), and more than one value adds a
  warning to the log and nothing else.
\<close>

theorem path_body_first_value:
  "(param_In param = ''path'' \<longrightarrow>
      getParamWriter param = Inr (pathWriter param) \<and>
      pathWriter param (v # vs) request =
        Inr (req_reply request (SetPathParam (param_Name param) v),
             request\<lparr>req_calls := req_calls request @ [SetPathParam (param_Name param) v]\<rparr>,
             if vs = [] then [] else [LogMultipleValues (param_Name param)])) \<and>
   (param_In param = ''body'' \<longrightarrow>
      getParamWriter param = Inr (bodyWriter param) \<and>
      bodyWriter param (v # vs) request =
        Inr (req_reply request (SetBodyParam (StringsReader v)),
             request\<lparr>req_calls := req_calls request @ [SetBodyParam (StringsReader v)]\<rparr>,
             if vs = [] then [] else [LogMultipleValues (param_Name param)]))"
  by (cases vs) (simp_all add: getParamWriter_def pathWriter_def bodyWriter_def invoke_def)

theorem path_body_first_value_witness:
  "pathWriter \<lparr>param_Name = ''id'', param_In = ''path'', param_Enum = []\<rparr> [''a'', ''b'']
     newRequest =
     Inr (None, \<lparr>req_calls = [SetPathParam ''id'' ''a''], req_reply = (\<lambda>c. None)\<rparr>,
          [LogMultipleValues ''id'']) \<and>
   bodyWriter \<lparr>param_Name = ''payload'', param_In = ''body'', param_Enum = []\<rparr> [''{\"k\":1}'']
     newRequest =
     Inr (None, \<lparr>req_calls = [SetBodyParam (StringsReader ''{\"k\":1}'')],
                 req_reply = (\<lambda>c. None)\<rparr>, [])"
  using path_body_first_value[of "\<lparr>param_Name = ''id'', param_In = ''path'', param_Enum = []\<rparr>"
      "''a''" "[''b'']" newRequest]
    path_body_first_value[of "\<lparr>param_Name = ''payload'', param_In = ''body'', param_Enum = []\<rparr>"
      "''{\"k\":1}''" "[]" newRequest]
  by (simp add: newRequest_def)

text \<open>
  C10. The path placer and the body placer read \<^verbatim>\<open>values[0]\<close> with no check of the
  length. On a sequence with at least one value they return; on the empty sequence the
  read is out of range and panics. The empty sequence arises when a field that is
  repeated and not a map decodes to no element: the writer that \<^verbatim>\<open>newPathWrapper\<close>
  builds for such a field and a path or body parameter panics.
\<close>

theorem path_body_empty_values_panic:
  "(param_In param = ''path'' \<or> param_In param = ''body'') \<longrightarrow>
     (\<exists>w. getParamWriter param = Inr w \<and>
        w [] request = Inl PanicIndexOutOfRange \<and>
        (\<forall>v vs. \<not> isl (w (v # vs) request)) \<and>
        (IsRepeated fieldDesc \<and> \<not> IsMap fieldDesc \<and> GetField message fieldDesc = VSlice [] \<longrightarrow>
           swaggerParamWriter fieldDesc toString w message request = Inl PanicIndexOutOfRange))"
  by (auto simp: getParamWriter_def pathWriter_def bodyWriter_def invoke_def
      swaggerParamWriter_def convertValues_def)

theorem path_body_empty_values_panic_witness:
  "getParamWriter \<lparr>param_Name = ''repeatedValue'', param_In = ''path'', param_Enum = []\<rparr> =
     Inr (pathWriter \<lparr>param_Name = ''repeatedValue'', param_In = ''path'', param_Enum = []\<rparr>) \<and>
   swaggerParamWriter repeatedValue_field stringValueConverter
     (pathWriter \<lparr>param_Name = ''repeatedValue'', param_In = ''path'', param_Enum = []\<rparr>)
     (\<lambda>fd. VSlice []) newRequest = Inl PanicIndexOutOfRange"
proof -
  let ?p = "\<lparr>param_Name = ''repeatedValue'', param_In = ''path'', param_Enum = []\<rparr>"
  have w: "getParamWriter ?p = Inr (pathWriter ?p)"
    by (simp add: getParamWriter_def)
  have rep: "IsRepeated repeatedValue_field \<and> \<not> IsMap repeatedValue_field \<and>
             GetField (\<lambda>fd. VSlice []) repeatedValue_field = VSlice []"
    by (simp add: IsRepeated_def IsMap_def repeatedValue_field_def GetField_def)
  from path_body_empty_values_panic[of ?p newRequest repeatedValue_field "\<lambda>fd. VSlice []"
      stringValueConverter] w rep
  show ?thesis by auto
qed

section \<open>getRequestWriter and handleGRPCRequest\<close>

text \<open>Writers that all return nil run one after the other, each on the request the last one left.\<close>

lemma runWriters_append:
  assumes "runWriters pre msg req = Inr (None, req', lg)"
  shows "runWriters (pre @ post) msg req =
           (case runWriters post msg req' of
              Inl p \<Rightarrow> Inl p
            | Inr (e, r, lg') \<Rightarrow> Inr (e, r, lg @ lg'))"
  using assms
proof (induction pre arbitrary: req lg)
  case Nil
  then show ?case by (auto split: sum.splits)
next
  case (Cons w pre)
  from Cons.prems obtain r' l' l'' where
    w: "w msg req = Inr (None, r', l')"
    and rest: "runWriters pre msg r' = Inr (None, req', l'')"
    and lg: "lg = l' @ l''"
    by (auto split: sum.splits option.splits prod.splits)
  from Cons.IH[OF rest] w lg show ?case
    by (auto split: sum.splits option.splits prod.splits)
qed

text \<open>The first writer that returns an error ends the loop: the writers after it do not matter.\<close>

lemma runWriters_first_error:
  assumes "runWriters pre msg req = Inr (None, req', lg)"
    and "w msg req' = Inr (Some e, req'', lg')"
  shows "runWriters (pre @ w # post) msg req = Inr (Some e, req'', lg @ lg')"
  using runWriters_append[OF assms(1), of "w # post"] assms(2) by simp

text \<open>
  C5. When decoding the inbound message fails with \<open>e\<close>, the call returns \<open>e\<close> and
  nothing is submitted to the transport. When decoding yields \<open>msg\<close>, the writers run in
  the order of \<open>paramWriters\<close>; if the writers \<open>pre\<close> return nil and the next writer \<open>w\<close>
  returns the error \<open>e\<close>, then request assembly returns exactly \<open>e\<close>, with the request as
  \<open>w\<close> left it, whatever the later writers \<open>post\<close> are, and the call returns \<open>e\<close> with
  nothing submitted to the transport and no message sent.
\<close>

theorem handleGRPCRequest_aborts:
  "(RecvMsg stream (inputProtoType p) = Inl e \<longrightarrow>
      handleGRPCRequest unmarshaler p stream =
        Inr (Some e, \<lparr>submitted = [], sent = [], logged = [LogErrorDeserializingRequest e]\<rparr>)) \<and>
   (paramWriters p = pre @ w # post \<and>
    runWriters pre msg req = Inr (None, req', lg) \<and> w msg req' = Inr (Some e, req'', lg') \<longrightarrow>
      getRequestWriter p msg req = Inr (Some e, req'', lg @ lg')) \<and>
   (RecvMsg stream (inputProtoType p) = Inr msg \<and> paramWriters p = pre @ w # post \<and>
    runWriters pre msg newRequest = Inr (None, req', lg) \<and> w msg req' = Inr (Some e, req'', lg') \<longrightarrow>
      handleGRPCRequest unmarshaler p stream =
        Inr (Some e, \<lparr>submitted = [], sent = [], logged = lg @ lg' @ [LogNonNilError e]\<rparr>))"
proof (intro conjI impI)
  assume "RecvMsg stream (inputProtoType p) = Inl e"
  then show "handleGRPCRequest unmarshaler p stream =
      Inr (Some e, \<lparr>submitted = [], sent = [], logged = [LogErrorDeserializingRequest e]\<rparr>)"
    by (simp add: handleGRPCRequest_def)
next
  assume "paramWriters p = pre @ w # post \<and>
    runWriters pre msg req = Inr (None, req', lg) \<and> w msg req' = Inr (Some e, req'', lg')"
  then show "getRequestWriter p msg req = Inr (Some e, req'', lg @ lg')"
    by (simp add: getRequestWriter_def runWriters_first_error)
next
  assume a: "RecvMsg stream (inputProtoType p) = Inr msg \<and> paramWriters p = pre @ w # post \<and>
    runWriters pre msg newRequest = Inr (None, req', lg) \<and> w msg req' = Inr (Some e, req'', lg')"
  then have "getRequestWriter p msg newRequest = Inr (Some e, req'', lg @ lg')"
    by (simp add: getRequestWriter_def runWriters_first_error)
  with a show "handleGRPCRequest unmarshaler p stream =
      Inr (Some e, \<lparr>submitted = [], sent = [], logged = lg @ lg' @ [LogNonNilError e]\<rparr>)"
    by (simp add: handleGRPCRequest_def Submit_def)
qed

theorem handleGRPCRequest_aborts_witness:
  "handleGRPCRequest unmarshaler0 failing_adapter failing_stream =
     Inr (Some (ErrExternal ''bad payload''),
          \<lparr>submitted = [], sent = [],
           logged = [LogErrorDeserializingRequest (ErrExternal ''bad payload'')]\<rparr>) \<and>
   handleGRPCRequest unmarshaler0 failing_adapter foo_stream =
     Inr (Some (ErrExternal ''writer failed''),
          \<lparr>submitted = [], sent = [], logged = [LogNonNilError (ErrExternal ''writer failed'')]\<rparr>)"
proof -
  let ?q = "\<lambda>(msg :: Message) request.
              queryWriter \<lparr>param_Name = ''q'', param_In = ''query'', param_Enum = []\<rparr> [''1''] request"
  let ?f = "\<lambda>(msg :: Message) (request :: ClientRequest).
              (Inr (Some (ErrExternal ''writer failed''), request, []) ::
                 panic + (error option \<times> ClientRequest \<times> log_entry list))"
  let ?h = "\<lambda>(msg :: Message) request.
              headerWriter \<lparr>param_Name = ''h'', param_In = ''header'', param_Enum = []\<rparr> [''2''] request"
  let ?r1 = "\<lparr>req_calls = [SetQueryParam ''q'' [''1'']], req_reply = (\<lambda>c. None)\<rparr>"
  have ws: "paramWriters failing_adapter = [?q] @ ?f # [?h]"
    by (simp add: failing_adapter_def)
  have first: "runWriters [?q] (\<lambda>fd. VString ''foo'') newRequest = Inr (None, ?r1, [])"
    by (simp add: queryWriter_def invoke_def newRequest_def)
  have second: "?f (\<lambda>fd. VString ''foo'') ?r1 = Inr (Some (ErrExternal ''writer failed''), ?r1, [])"
    by simp
  have bad: "RecvMsg failing_stream (inputProtoType failing_adapter) = Inl (ErrExternal ''bad payload'')"
    by (simp add: failing_stream_def)
  have good: "RecvMsg foo_stream (inputProtoType failing_adapter) = Inr (\<lambda>fd. VString ''foo'')"
    by (simp add: foo_stream_def)
  from handleGRPCRequest_aborts[where stream = failing_stream and p = failing_adapter
      and e = "ErrExternal ''bad payload''" and unmarshaler = unmarshaler0] bad
  have one: "handleGRPCRequest unmarshaler0 failing_adapter failing_stream =
     Inr (Some (ErrExternal ''bad payload''),
          \<lparr>submitted = [], sent = [],
           logged = [LogErrorDeserializingRequest (ErrExternal ''bad payload'')]\<rparr>)"
    by blast
  from handleGRPCRequest_aborts[where stream = foo_stream and p = failing_adapter
      and e = "ErrExternal ''writer failed''" and unmarshaler = unmarshaler0
      and pre = "[?q]" and w = ?f and post = "[?h]" and msg = "\<lambda>fd. VString ''foo''"
      and req' = ?r1 and lg = "[]" and req'' = ?r1 and lg' = "[]"]
    ws first second good
  have two: "handleGRPCRequest unmarshaler0 failing_adapter foo_stream =
     Inr (Some (ErrExternal ''writer failed''),
          \<lparr>submitted = [], sent = [], logged = [] @ [] @ [LogNonNilError (ErrExternal ''writer failed'')]\<rparr>)"
    by blast
  from one two show ?thesis by simp
qed

section \<open>newPathWrapper\<close>

lemma strings_Replace_char:
  "strings_Replace s [a] [b] = map (\<lambda>c. if c = a then b else c) s"
  by (induction s) auto

lemma bindParameters_append:
  "bindParameters lib input (xs @ ys) ws =
     (case bindParameters lib input xs ws of
        Inl e \<Rightarrow> Inl e
      | Inr ws' \<Rightarrow> bindParameters lib input ys ws')"
  by (induction xs arbitrary: ws) (auto simp: Let_def split: option.splits sum.splits)

text \<open>When the loop returns writers, every parameter found its field, its converter and its placer.\<close>

lemma bindParameters_success:
  assumes "bindParameters lib input ps ws = Inr ws'" and "p \<in> set ps"
  shows "\<exists>fd conv w.
           FindFieldByName input (strings_Replace (param_Name p) ''-'' ''_'') = Some fd \<and>
           getStringConverter lib fd p = Inr conv \<and> getParamWriter p = Inr w"
  using assms
  by (induction ps arbitrary: ws) (auto simp: Let_def split: option.splits sum.splits)

lemma bindParameters_length:
  "bindParameters lib input ps ws = Inr ws' \<Longrightarrow> length ws' = length ws + length ps"
  by (induction ps arbitrary: ws) (auto simp: Let_def split: option.splits sum.splits)

lemma getStringConverter_supported:
  assumes "getStringConverter lib fd p = Inr conv"
  shows "fd_Type fd \<noteq> TYPE_BYTES \<and> fd_Type fd \<noteq> TYPE_GROUP"
  using assms
  by (auto simp: getStringConverter_def IsMap_def GetType_def split: if_splits)

lemma getParamWriter_supported:
  assumes "getParamWriter p = Inr w"
  shows "param_In p \<in> set [''query'', ''header'', ''path'', ''body'']"
  using assms by (auto simp: getParamWriter_def split: if_splits)

text \<open>
  C6, as the code has it. A parameter is bound to the field whose name is the parameter
  name with every hyphen replaced by an underscore. When the input message has no field
  of that name, construction fails and returns no adapter. The error is the one of the
  first parameter, in the order the loop visits them, that cannot be bound: it is the
  error about the missing field when the parameters visited before this one are bound.
\<close>

theorem newPathWrapper_missing_field:
  assumes "param \<in> set parameters"
    and "FindFieldByName (md_InputType method)
           (strings_Replace (param_Name param) ''-'' ''_'') = None"
  shows "strings_Replace (param_Name param) ''-'' ''_'' =
           map (\<lambda>c. if c = CHR ''-'' then CHR ''_'' else c) (param_Name param) \<and>
         isl (newPathWrapper lib rt m path parameters method) \<and>
         (\<forall>before after ws.
            parameters = before @ param # after \<and>
            bindParameters lib (md_InputType method) before [] = Inr ws \<longrightarrow>
            newPathWrapper lib rt m path parameters method =
              Inl (ErrCouldNotFindProtoField (strings_Replace (param_Name param) ''-'' ''_'')))"
proof (intro conjI allI impI)
  show "strings_Replace (param_Name param) ''-'' ''_'' =
          map (\<lambda>c. if c = CHR ''-'' then CHR ''_'' else c) (param_Name param)"
    by (rule strings_Replace_char)
next
  have "bindParameters lib (md_InputType method) parameters [] \<noteq> Inr ws" for ws
    using bindParameters_success[of lib "md_InputType method" parameters "[]" ws param] assms
    by auto
  then show "isl (newPathWrapper lib rt m path parameters method)"
    by (cases "bindParameters lib (md_InputType method) parameters []")
      (auto simp: newPathWrapper_def Let_def)
next
  fix before after ws
  assume "parameters = before @ param # after \<and>
          bindParameters lib (md_InputType method) before [] = Inr ws"
  then have "bindParameters lib (md_InputType method) parameters [] =
          Inl (ErrCouldNotFindProtoField (strings_Replace (param_Name param) ''-'' ''_''))"
    using assms(2) by (simp add: bindParameters_append Let_def)
  then show "newPathWrapper lib rt m path parameters method =
          Inl (ErrCouldNotFindProtoField (strings_Replace (param_Name param) ''-'' ''_''))"
    by (simp add: newPathWrapper_def Let_def)
qed

theorem newPathWrapper_missing_field_witness:
  "absent_param \<in> set [absent_param, cookie_param] \<and>
   FindFieldByName (md_InputType method0)
     (strings_Replace (param_Name absent_param) ''-'' ''_'') = None \<and>
   strings_Replace (param_Name absent_param) ''-'' ''_'' = ''absent_field'' \<and>
   newPathWrapper lib0 (\<lambda>s. Inr []) ''GET'' ''/x'' [absent_param, cookie_param] method0 =
     Inl (ErrCouldNotFindProtoField ''absent_field'')"
proof -
  have a: "absent_param \<in> set [absent_param, cookie_param]"
    by simp
  have n: "strings_Replace (param_Name absent_param) ''-'' ''_'' = ''absent_field''"
    by (simp add: absent_param_def)
  have b: "FindFieldByName (md_InputType method0)
             (strings_Replace (param_Name absent_param) ''-'' ''_'') = None"
    unfolding n by (simp add: FindFieldByName_def method0_def stringValue_field_def)
  have c: "[absent_param, cookie_param] = [] @ absent_param # [cookie_param] \<and>
           bindParameters lib0 (md_InputType method0) [] [] = Inr []"
    by simp
  from newPathWrapper_missing_field[OF a b, of lib0 "\<lambda>s. Inr []" "''GET''" "''/x''"] c
  have "newPathWrapper lib0 (\<lambda>s. Inr []) ''GET'' ''/x'' [absent_param, cookie_param] method0 =
          Inl (ErrCouldNotFindProtoField (strings_Replace (param_Name absent_param) ''-'' ''_''))"
    by blast
  with a b n show ?thesis by simp
qed

text \<open>
  C6 as stated fails: with the cookie parameter visited first, construction fails with
  the error of the cookie location, although the other parameter names no field of the
  input message. Visited in the other order, the same two parameters give the error
  about the missing field.
\<close>

theorem newPathWrapper_binding_error_counterexample:
  "FindFieldByName (md_InputType method0)
     (strings_Replace (param_Name absent_param) ''-'' ''_'') = None \<and>
   newPathWrapper lib0 (\<lambda>s. Inr []) ''GET'' ''/x'' [cookie_param, absent_param] method0 =
     Inl ErrCookie \<and>
   newPathWrapper lib0 (\<lambda>s. Inr []) ''GET'' ''/x'' [absent_param, cookie_param] method0 =
     Inl (ErrCouldNotFindProtoField ''absent_field'')"
  by (simp add: newPathWrapper_def method0_def cookie_param_def absent_param_def
      FindFieldByName_def stringValue_field_def getStringConverter_def IsMap_def GetType_def
      getParamWriter_def)

text \<open>
  C9. A field of kind bytes or group has no converter, and a parameter whose location is
  \<open>formData\<close>, \<open>cookie\<close> or any string other than the four supported ones has no placer:
  each lookup returns an error. An adapter is therefore constructed only when every
  parameter is bound to a field of another kind and has one of the four supported
  locations, and it holds one writer per parameter.
\<close>

theorem unsupported_kinds_and_locations:
  "(fd_Type fieldDesc = TYPE_BYTES \<longrightarrow>
      getStringConverter lib fieldDesc param = Inl ErrBytesNotImplemented) \<and>
   (fd_Type fieldDesc = TYPE_GROUP \<longrightarrow>
      getStringConverter lib fieldDesc param = Inl ErrGroup) \<and>
   (param_In param = ''formData'' \<longrightarrow> getParamWriter param = Inl ErrFormData) \<and>
   (param_In param = ''cookie'' \<longrightarrow> getParamWriter param = Inl ErrCookie) \<and>
   (param_In param \<notin> set [''query'', ''header'', ''path'', ''body'', ''formData'', ''cookie''] \<longrightarrow>
      getParamWriter param =
        Inl (ErrUnknownParameterLocation (param_In param) (param_Name param))) \<and>
   (\<forall>adapter. newPathWrapper lib rt m path parameters method = Inr adapter \<longrightarrow>
      length (paramWriters adapter) = length parameters \<and>
      (\<forall>p \<in> set parameters.
         \<exists>fd. FindFieldByName (md_InputType method)
                (strings_Replace (param_Name p) ''-'' ''_'') = Some fd \<and>
              fd_Type fd \<noteq> TYPE_BYTES \<and> fd_Type fd \<noteq> TYPE_GROUP \<and>
              param_In p \<in> set [''query'', ''header'', ''path'', ''body'']))"
proof (intro conjI allI impI ballI)
  show "fd_Type fieldDesc = TYPE_BYTES \<Longrightarrow>
        getStringConverter lib fieldDesc param = Inl ErrBytesNotImplemented"
    by (simp add: getStringConverter_def IsMap_def GetType_def)
  show "fd_Type fieldDesc = TYPE_GROUP \<Longrightarrow>
        getStringConverter lib fieldDesc param = Inl ErrGroup"
    by (simp add: getStringConverter_def IsMap_def GetType_def)
  show "param_In param = ''formData'' \<Longrightarrow> getParamWriter param = Inl ErrFormData"
    by (simp add: getParamWriter_def)
  show "param_In param = ''cookie'' \<Longrightarrow> getParamWriter param = Inl ErrCookie"
    by (simp add: getParamWriter_def)
  show "param_In param \<notin> set [''query'', ''header'', ''path'', ''body'', ''formData'', ''cookie''] \<Longrightarrow>
        getParamWriter param =
          Inl (ErrUnknownParameterLocation (param_In param) (param_Name param))"
    by (simp add: getParamWriter_def)
next
  fix adapter
  assume built: "newPathWrapper lib rt m path parameters method = Inr adapter"
  then obtain ws where ws: "bindParameters lib (md_InputType method) parameters [] = Inr ws"
    and ad: "paramWriters adapter = ws"
    by (auto simp: newPathWrapper_def Let_def split: sum.splits)
  show "length (paramWriters adapter) = length parameters"
    using bindParameters_length[OF ws] ad by simp
  fix p
  assume "p \<in> set parameters"
  from bindParameters_success[OF ws this] obtain fd conv w where
    "FindFieldByName (md_InputType method) (strings_Replace (param_Name p) ''-'' ''_'') = Some fd"
    "getStringConverter lib fd p = Inr conv" "getParamWriter p = Inr w"
    by blast
  then show "\<exists>fd. FindFieldByName (md_InputType method)
                (strings_Replace (param_Name p) ''-'' ''_'') = Some fd \<and>
              fd_Type fd \<noteq> TYPE_BYTES \<and> fd_Type fd \<noteq> TYPE_GROUP \<and>
              param_In p \<in> set [''query'', ''header'', ''path'', ''body'']"
    using getStringConverter_supported getParamWriter_supported by blast
qed

theorem unsupported_kinds_and_locations_witness:
  "fd_Type bytesValue_field = TYPE_BYTES \<and>
   getStringConverter lib0 bytesValue_field cookie_param = Inl ErrBytesNotImplemented \<and>
   param_In cookie_param = ''cookie'' \<and>
   getParamWriter cookie_param = Inl ErrCookie \<and>
   isl (newPathWrapper lib0 (\<lambda>s. Inr []) ''GET'' ''/x'' [cookie_param] method0)"
proof -
  have a: "fd_Type bytesValue_field = TYPE_BYTES"
    by (simp add: bytesValue_field_def)
  have b: "param_In cookie_param = ''cookie''"
    by (simp add: cookie_param_def)
  note inst = unsupported_kinds_and_locations[of bytesValue_field lib0 cookie_param
      "\<lambda>s. Inr []" "''GET''" "''/x''" "[cookie_param]" method0]
  have "\<not> (\<exists>adapter. newPathWrapper lib0 (\<lambda>s. Inr []) ''GET'' ''/x'' [cookie_param] method0 =
            Inr adapter)"
  proof
    assume "\<exists>adapter. newPathWrapper lib0 (\<lambda>s. Inr []) ''GET'' ''/x'' [cookie_param] method0 =
            Inr adapter"
    with inst have "param_In cookie_param \<in> set [''query'', ''header'', ''path'', ''body'']"
      by auto
    then show False by (simp add: cookie_param_def)
  qed
  then have "isl (newPathWrapper lib0 (\<lambda>s. Inr []) ''GET'' ''/x'' [cookie_param] method0)"
    by (cases "newPathWrapper lib0 (\<lambda>s. Inr []) ''GET'' ''/x'' [cookie_param] method0") auto
  with inst a b show ?thesis by simp
qed

section \<open>Booleans and integers under the numeric converter\<close>

text \<open>
  The boolean kind and the numeric kinds share one converter, \<^verbatim>\<open>fmt.Sprintf("%v", value)\<close>.
  On booleans and integers it is written out above: a boolean becomes \<open>true\<close> or
  \<open>false\<close>, an integer its decimal digits, with a minus sign when negative and with no
  other character. The fixtures of \<^verbatim>\<open>TestGetStringConverter\<close> come out as the test expects.
\<close>

lemma sprintfConverter_selected:
  assumes "fd_Type fd \<in> set [TYPE_BOOL, TYPE_INT64, TYPE_UINT64, TYPE_INT32, TYPE_FIXED64,
             TYPE_FIXED32, TYPE_UINT32, TYPE_SFIXED32, TYPE_SFIXED64, TYPE_SINT32,
             TYPE_SINT64, TYPE_DOUBLE, TYPE_FLOAT]"
  shows "getStringConverter lib fd param = Inr (sprintfConverter lib)"
  using assms by (auto simp: getStringConverter_def IsMap_def GetType_def)

lemma sprintfConverter_bool:
  "sprintfConverter lib (VBool b) = Inr (if b then ''true'' else ''false'', [])"
  by (simp add: sprintfConverter_def Sprintf_v_def FormatBool_def)

lemma sprintfConverter_fixtures:
  "sprintfConverter lib (VBool True) = Inr (''true'', [])"
  "sprintfConverter lib (VInt32 1234) = Inr (''1234'', [])"
  "sprintfConverter lib (VInt64 4567) = Inr (''4567'', [])"
  "sprintfConverter lib (VInt32 (- 1234)) = Inr (''-1234'', [])"
  by (simp_all add: sprintfConverter_def Sprintf_v_def FormatBool_def FormatInt_def
      FormatUint.simps)

lemma FormatUint_digits: "set (FormatUint n) \<subseteq> set ''0123456789''"
proof -
  define D where "D = ''0123456789''"
  have mem: "D ! k \<in> set D" if "k < 10" for k
    unfolding D_def using that by (intro nth_mem) simp
  have step: "FormatUint n = (if n < 10 then [D ! n] else FormatUint (n div 10) @ [D ! (n mod 10)])"
    for n
    unfolding D_def by (rule FormatUint.simps)
  have "set (FormatUint n) \<subseteq> set D"
  proof (induction n rule: less_induct)
    case (less n)
    show ?case
    proof (cases "n < 10")
      case True
      then have "FormatUint n = [D ! n]"
        using step[of n] by simp
      with mem[OF True] show ?thesis by simp
    next
      case False
      then have eq: "FormatUint n = FormatUint (n div 10) @ [D ! (n mod 10)]"
        using step[of n] by simp
      have "n div 10 < n" using False by simp
      from less.IH[OF this] mem[of "n mod 10"] show ?thesis
        unfolding eq by simp
    qed
  qed
  then show ?thesis unfolding D_def .
qed

lemma FormatInt_digits: "set (FormatInt i) \<subseteq> insert (CHR ''-'') (set ''0123456789'')"
proof (cases "i < 0")
  case True
  then have "set (FormatInt i) = insert (CHR ''-'') (set (FormatUint (nat (- i))))"
    by (simp add: FormatInt_def)
  then show ?thesis
    by (simp only:) (rule insert_mono, rule FormatUint_digits)
next
  case False
  then have "set (FormatInt i) = set (FormatUint (nat i))"
    by (simp add: FormatInt_def)
  then show ?thesis
    by (simp only:) (rule subset_trans[OF FormatUint_digits subset_insertI])
qed

end
